theory Spec2Isabelle
  imports Complex_Main "HOL-Library.Word" "HOL-Library.AList" "HOL-Library.Sublist" "HOL-Library.Multiset"
begin

section \<open>Identifiers\<close>

text \<open>
  A bson ObjectId holds bytes. An identifier that the store generates has twelve, and is a
  96-bit word here; \<open>binary\<close> gives its bytes and \<open>str(oid)\<close> their lower-case hexadecimal
  rendering, 24 characters.

  \<open>ObjectId(s)\<close> of a string tests \<open>len(s) == 24\<close> and then takes \<open>bytes.fromhex(s)\<close>
  for its bytes; it raises InvalidId when the length is another or \<open>fromhex\<close> fails.
  \<open>bytes.fromhex\<close> reads pairs of hexadecimal digits and skips ASCII whitespace before,
  between and after the pairs. So a string of 24 characters with whitespace in it is accepted,
  and gives an ObjectId of fewer than twelve bytes.
\<close>

type_synonym objectid = "96 word"

type_synonym bytes = "nat list"

fun bytes_of :: "nat \<Rightarrow> nat \<Rightarrow> bytes" where
  "bytes_of 0 n = []"
| "bytes_of (Suc k) n = bytes_of k (n div 256) @ [n mod 256]"

definition binary :: "objectid \<Rightarrow> bytes" where
  "binary w = bytes_of 12 (unat w)"

definition hexdigit :: "nat \<Rightarrow> char" where
  "hexdigit d = ''0123456789abcdef'' ! (d mod 16)"

fun hex_digits :: "nat \<Rightarrow> nat \<Rightarrow> string" where
  "hex_digits 0 n = []"
| "hex_digits (Suc k) n = hex_digits k (n div 16) @ [hexdigit (n mod 16)]"

definition str_oid :: "objectid \<Rightarrow> string" where
  "str_oid w = hex_digits 24 (unat w)"

definition hexval :: "char \<Rightarrow> nat option" where
  "hexval c = map_of
     [(CHR ''0'', 0), (CHR ''1'', 1), (CHR ''2'', 2), (CHR ''3'', 3), (CHR ''4'', 4),
      (CHR ''5'', 5), (CHR ''6'', 6), (CHR ''7'', 7), (CHR ''8'', 8), (CHR ''9'', 9),
      (CHR ''a'', 10), (CHR ''b'', 11), (CHR ''c'', 12), (CHR ''d'', 13), (CHR ''e'', 14),
      (CHR ''f'', 15), (CHR ''A'', 10), (CHR ''B'', 11), (CHR ''C'', 12), (CHR ''D'', 13),
      (CHR ''E'', 14), (CHR ''F'', 15)] c"

definition ascii_whitespace :: "char list" where
  "ascii_whitespace = [CHR '' '', CHR 0x09, CHR 0x0A, CHR 0x0B, CHR 0x0C, CHR 0x0D]"

fun fromhex :: "string \<Rightarrow> bytes option" where
  "fromhex [] = Some []"
| "fromhex [c] = (if c \<in> set ascii_whitespace then Some [] else None)"
| "fromhex (c # d # cs) =
     (if c \<in> set ascii_whitespace then fromhex (d # cs)
      else (case hexval c of
              None \<Rightarrow> None
            | Some t \<Rightarrow> (case hexval d of
                          None \<Rightarrow> None
                        | Some b \<Rightarrow> map_option ((#) (16 * t + b)) (fromhex cs))))"

definition ObjectId :: "string \<Rightarrow> bytes option" where
  "ObjectId s = (if length s = 24 then fromhex s else None)"

section \<open>Values, documents and views\<close>

text \<open>
  A datetime value as Python's \<open>datetime\<close> holds it; \<open>dt_offset\<close> is the UTC offset in
  minutes of an aware value and \<open>None\<close> for a naive one.
\<close>

datatype datetime = Datetime (dt_year: nat) (dt_month: nat) (dt_day: nat)
  (dt_hour: nat) (dt_minute: nat) (dt_second: nat) (dt_micro: nat) (dt_offset: "int option")

text \<open>
  The values a document or a request body holds. A float is kept as the rational it denotes;
  nothing here computes with it.
\<close>

datatype val = VNone | VBool bool | VInt int | VFloat rat | VStr string | VList "val list"
  | VDatetime datetime

type_synonym fields = "(string \<times> val) list"

text \<open>
  A stored document: the store gives every document an \<open>_id\<close> of type ObjectId on insert,
  so the identifier is a component of its own; the dict that pymongo returns for a document is
  the \<open>_id\<close> entry together with \<open>doc_fields\<close>. A view is the dict that \<open>serialize\<close> returns.
\<close>

record document =
  doc_id :: objectid
  doc_fields :: fields

type_synonym view = fields

type_synonym db = "string \<Rightarrow> document list"

subsection \<open>isoformat\<close>

fun dec_digits :: "nat \<Rightarrow> nat \<Rightarrow> string" where
  "dec_digits 0 n = []"
| "dec_digits (Suc k) n = dec_digits k (n div 10) @ [''0123456789'' ! (n mod 10)]"

definition iso_offset :: "int option \<Rightarrow> string" where
  "iso_offset off = (case off of
      None \<Rightarrow> []
    | Some m \<Rightarrow> (if m < 0 then ''-'' else ''+'') @ dec_digits 2 (nat \<bar>m\<bar> div 60)
               @ '':'' @ dec_digits 2 (nat \<bar>m\<bar> mod 60))"

definition isoformat :: "datetime \<Rightarrow> string" where
  "isoformat t =
     dec_digits 4 (dt_year t) @ ''-'' @ dec_digits 2 (dt_month t) @ ''-'' @ dec_digits 2 (dt_day t)
     @ ''T'' @ dec_digits 2 (dt_hour t) @ '':'' @ dec_digits 2 (dt_minute t) @ '':''
     @ dec_digits 2 (dt_second t)
     @ (if dt_micro t \<noteq> 0 then ''.'' @ dec_digits 6 (dt_micro t) else [])
     @ iso_offset (dt_offset t)"

subsection \<open>serialize\<close>

text \<open>
  \<open>serialize(doc)\<close>: a falsy \<open>doc\<close> (\<open>None\<close>) is returned as it is; otherwise the copy loses
  \<open>_id\<close> and gains \<open>id = str(_id)\<close> (a dict assignment: in place when the key exists, at the
  end otherwise), and then every value with an \<open>isoformat\<close> attribute is replaced by its
  \<open>isoformat()\<close>.
\<close>

definition iso_value :: "val \<Rightarrow> val" where
  "iso_value v = (case v of VDatetime t \<Rightarrow> VStr (isoformat t) | _ \<Rightarrow> v)"

definition serialize_doc :: "document \<Rightarrow> view" where
  "serialize_doc d =
     map (\<lambda>(k, v). (k, iso_value v)) (AList.update ''id'' (VStr (str_oid (doc_id d))) (doc_fields d))"

definition serialize :: "document option \<Rightarrow> view option" where
  "serialize doc = (case doc of None \<Rightarrow> None | Some d \<Rightarrow> Some (serialize_doc d))"

section \<open>Errors\<close>

text \<open>
  What a request can end with instead of a result: an \<open>HTTPException\<close> that a handler
  raises, the validation error of a request body, and the exceptions of the libraries that no
  handler catches, \<open>InvalidId\<close> of bson and \<open>OverflowError\<close> of the BSON encoder.
\<close>

datatype verr = Missing string | WrongType string

datatype error =
    HTTPException nat string
  | ValidationError "verr list"
  | InvalidId
  | OverflowError
  | RegexNotModelled

section \<open>The document store\<close>

text \<open>
  The part of a regular expression that is modelled: a sequence of ordinary characters and
  of \<open>.\<close>, which stands for any character but a newline. The matching ignores the case of
  the ASCII letters, as the option \<open>i\<close> of the query asks on ASCII strings.
\<close>

datatype pat = PChar char | PAny

text \<open>
  The constraints of a query: a field equal to a string, the \<open>_id\<close> equal to an ObjectId
  (given by its bytes), a field matching a regular expression. \<open>EqId i\<close> is the constraint
  by an identifier of the store.
\<close>

datatype cond = Eq string | EqOid bytes | Regex "pat list"

abbreviation EqId :: "objectid \<Rightarrow> cond" where
  "EqId i \<equiv> EqOid (binary i)"

type_synonym filter = "(string \<times> cond) list"

definition lower :: "char \<Rightarrow> char" where
  "lower c = (case map_of (zip ''ABCDEFGHIJKLMNOPQRSTUVWXYZ'' ''abcdefghijklmnopqrstuvwxyz'') c of
      None \<Rightarrow> c | Some l \<Rightarrow> l)"

fun pat_match :: "pat \<Rightarrow> char \<Rightarrow> bool" where
  "pat_match (PChar p) c = (lower p = lower c)"
| "pat_match PAny c = (c \<noteq> CHR 0x0A)"

fun match_here :: "pat list \<Rightarrow> string \<Rightarrow> bool" where
  "match_here [] s = True"
| "match_here (p # ps) [] = False"
| "match_here (p # ps) (c # cs) = (pat_match p c \<and> match_here ps cs)"

fun regex_search :: "pat list \<Rightarrow> string \<Rightarrow> bool" where
  "regex_search ps [] = match_here ps []"
| "regex_search ps (c # cs) = (match_here ps (c # cs) \<or> regex_search ps cs)"

text \<open>
  One constraint of a query against one document, as MongoDB evaluates it: a value matches a
  field that holds it, or that holds an array with an element that matches.
\<close>

fun match1 :: "document \<Rightarrow> string \<Rightarrow> cond \<Rightarrow> bool" where
  "match1 d k (EqOid b) = (k = ''_id'' \<and> binary (doc_id d) = b)"
| "match1 d k (Eq s) = (k \<noteq> ''_id'' \<and>
     (case map_of (doc_fields d) k of
        Some (VStr t) \<Rightarrow> t = s
      | Some (VList xs) \<Rightarrow> VStr s \<in> set xs
      | _ \<Rightarrow> False))"
| "match1 d k (Regex ps) = (k \<noteq> ''_id'' \<and>
     (case map_of (doc_fields d) k of
        Some (VStr t) \<Rightarrow> regex_search ps t
      | Some (VList xs) \<Rightarrow> list_ex (\<lambda>x. case x of VStr t \<Rightarrow> regex_search ps t | _ \<Rightarrow> False) xs
      | _ \<Rightarrow> False))"

definition matches :: "filter \<Rightarrow> document \<Rightarrow> bool" where
  "matches filt d = list_all (\<lambda>(k, c). match1 d k c) filt"

definition find_one :: "filter \<Rightarrow> document list \<Rightarrow> document option" where
  "find_one filt docs = List.find (matches filt) docs"

definition find_docs :: "filter \<Rightarrow> document list \<Rightarrow> document list" where
  "find_docs filt docs = filter (matches filt) docs"

text \<open>
  What the BSON encoder takes: an integer has to fit in eight bytes, and the encoder raises
  \<open>OverflowError\<close> on any other. \<open>insert_one\<close> encodes the document before it stores it.
\<close>

fun bson_ok :: "val \<Rightarrow> bool" where
  "bson_ok (VInt n) = (- (2 ^ 63) \<le> n \<and> n < 2 ^ 63)"
| "bson_ok (VList vs) = list_all bson_ok vs"
| "bson_ok v = True"

definition encodable :: "fields \<Rightarrow> bool" where
  "encodable data = list_all (\<lambda>(k, v). bson_ok v) data"

definition insert_one :: "objectid \<Rightarrow> fields \<Rightarrow> document list \<Rightarrow> error + document list" where
  "insert_one i data docs =
     (if encodable data then Inr (docs @ [\<lparr>doc_id = i, doc_fields = data\<rparr>]) else Inl OverflowError)"

fun set_fields :: "fields \<Rightarrow> fields \<Rightarrow> fields" where
  "set_fields [] fs = fs"
| "set_fields ((k, v) # kvs) fs = set_fields kvs (AList.update k v fs)"

fun update_one :: "filter \<Rightarrow> fields \<Rightarrow> document list \<Rightarrow> document list" where
  "update_one filt upd [] = []"
| "update_one filt upd (d # ds) =
     (if matches filt d then d\<lparr>doc_fields := set_fields upd (doc_fields d)\<rparr> # ds
      else d # update_one filt upd ds)"

text \<open>
  Modelled from the spec: \<open>create_document\<close> of the module \<open>database\<close>, which is not among the
  sources. The spec's \<open>create\<close> "generates a new unique identifier, persists the document,
  returns the identifier"; the identifier comes back in its string form, which the callers
  parse with \<open>ObjectId\<close>. The identifier the store generates is the argument \<open>new_id\<close>;
  an error of the store's insert is passed on.
\<close>

definition create_document :: "string \<Rightarrow> fields \<Rightarrow> objectid \<Rightarrow> db \<Rightarrow> error + string \<times> db" where
  "create_document coll data new_id s =
     (case insert_one new_id data (s coll) of
        Inl e \<Rightarrow> Inl e
      | Inr docs \<Rightarrow> Inr (str_oid new_id, s(coll := docs)))"

section \<open>Request models\<close>

text \<open>
  The request models of \<open>main.py\<close>. \<open>X_dump\<close> is \<open>model_dump()\<close>: the dict of all fields in
  the order of their declaration. \<open>X_validate\<close> is the validation of a parsed request body
  against the model: one error per field that is missing without a default or that holds a
  value the field does not take, all of them collected; keys the model does not declare are
  ignored. A \<open>str\<close> field takes a string and nothing else. An \<open>int\<close> field takes what
  pydantic converts to an integer: an integer, a boolean (0 or 1), a float without fractional
  part, and a string that is a decimal numeral with an optional sign. What pydantic makes of
  other strings (surrounding whitespace, underscores, a fraction of zeros) depends on its
  version; they are errors here.
\<close>

definition digit_of :: "char \<Rightarrow> nat option" where
  "digit_of c = map_of
     [(CHR ''0'', 0), (CHR ''1'', 1), (CHR ''2'', 2), (CHR ''3'', 3), (CHR ''4'', 4),
      (CHR ''5'', 5), (CHR ''6'', 6), (CHR ''7'', 7), (CHR ''8'', 8), (CHR ''9'', 9)] c"

fun decimal :: "nat \<Rightarrow> string \<Rightarrow> nat option" where
  "decimal a [] = Some a"
| "decimal a (c # cs) = (case digit_of c of None \<Rightarrow> None | Some d \<Rightarrow> decimal (10 * a + d) cs)"

definition int_of_str :: "string \<Rightarrow> int option" where
  "int_of_str t = (case t of
      [] \<Rightarrow> None
    | c # cs \<Rightarrow>
        if c = CHR ''-'' then (if cs = [] then None else map_option (\<lambda>n. - int n) (decimal 0 cs))
        else if c = CHR ''+'' then (if cs = [] then None else map_option int (decimal 0 cs))
        else map_option int (decimal 0 t))"

definition coerce_int :: "val \<Rightarrow> int option" where
  "coerce_int v = (case v of
      VInt n \<Rightarrow> Some n
    | VBool b \<Rightarrow> Some (if b then 1 else 0)
    | VFloat r \<Rightarrow> (if of_int \<lfloor>r\<rfloor> = r then Some \<lfloor>r\<rfloor> else None)
    | VStr t \<Rightarrow> int_of_str t
    | _ \<Rightarrow> None)"

definition req_str :: "fields \<Rightarrow> string \<Rightarrow> verr + string" where
  "req_str raw k = (case map_of raw k of
      None \<Rightarrow> Inl (Missing k) | Some (VStr t) \<Rightarrow> Inr t | Some _ \<Rightarrow> Inl (WrongType k))"

definition dflt_str :: "fields \<Rightarrow> string \<Rightarrow> string \<Rightarrow> verr + string" where
  "dflt_str raw k dflt = (case map_of raw k of
      None \<Rightarrow> Inr dflt | Some (VStr t) \<Rightarrow> Inr t | Some _ \<Rightarrow> Inl (WrongType k))"

definition dflt_int :: "fields \<Rightarrow> string \<Rightarrow> int \<Rightarrow> verr + int" where
  "dflt_int raw k dflt = (case map_of raw k of
      None \<Rightarrow> Inr dflt
    | Some v \<Rightarrow> (case coerce_int v of None \<Rightarrow> Inl (WrongType k) | Some n \<Rightarrow> Inr n))"

definition opt_str :: "fields \<Rightarrow> string \<Rightarrow> string option \<Rightarrow> verr + string option" where
  "opt_str raw k dflt = (case map_of raw k of
      None \<Rightarrow> Inr dflt | Some VNone \<Rightarrow> Inr None | Some (VStr t) \<Rightarrow> Inr (Some t)
    | Some _ \<Rightarrow> Inl (WrongType k))"

fun the_strs :: "val list \<Rightarrow> string list option" where
  "the_strs [] = Some []"
| "the_strs (VStr t # vs) = map_option ((#) t) (the_strs vs)"
| "the_strs (_ # vs) = None"

definition opt_str_list :: "fields \<Rightarrow> string \<Rightarrow> string list option \<Rightarrow> verr + string list option" where
  "opt_str_list raw k dflt = (case map_of raw k of
      None \<Rightarrow> Inr dflt
    | Some VNone \<Rightarrow> Inr None
    | Some (VList vs) \<Rightarrow> (case the_strs vs of None \<Rightarrow> Inl (WrongType k) | Some ts \<Rightarrow> Inr (Some ts))
    | Some _ \<Rightarrow> Inl (WrongType k))"

definition errs_of :: "verr + 'a \<Rightarrow> verr list" where
  "errs_of r = (case r of Inl e \<Rightarrow> [e] | Inr _ \<Rightarrow> [])"

definition opt_val :: "string option \<Rightarrow> val" where
  "opt_val x = (case x of None \<Rightarrow> VNone | Some t \<Rightarrow> VStr t)"

record CourseIn =
  crs_title :: string
  crs_description :: string
  crs_instructor_id :: string
  crs_tags :: "string list option"
  crs_cover_image :: "string option"
  crs_level :: "string option"

definition CourseIn_dump :: "CourseIn \<Rightarrow> fields" where
  "CourseIn_dump c =
     [(''title'', VStr (crs_title c)), (''description'', VStr (crs_description c)),
      (''instructor_id'', VStr (crs_instructor_id c)),
      (''tags'', (case crs_tags c of None \<Rightarrow> VNone | Some ts \<Rightarrow> VList (map VStr ts))),
      (''cover_image'', opt_val (crs_cover_image c)), (''level'', opt_val (crs_level c))]"

definition CourseIn_validate :: "fields \<Rightarrow> verr list + CourseIn" where
  "CourseIn_validate raw =
     (let t = req_str raw ''title''; d = req_str raw ''description'';
          i = req_str raw ''instructor_id''; g = opt_str_list raw ''tags'' (Some []);
          c = opt_str raw ''cover_image'' None; l = opt_str raw ''level'' None;
          es = errs_of t @ errs_of d @ errs_of i @ errs_of g @ errs_of c @ errs_of l
      in if es = []
         then Inr \<lparr>crs_title = projr t, crs_description = projr d, crs_instructor_id = projr i,
                   crs_tags = projr g, crs_cover_image = projr c, crs_level = projr l\<rparr>
         else Inl es)"

record LessonIn =
  les_course_id :: string
  les_title :: string
  les_content :: "string option"
  les_video_url :: "string option"
  les_order :: int

definition LessonIn_dump :: "LessonIn \<Rightarrow> fields" where
  "LessonIn_dump l =
     [(''course_id'', VStr (les_course_id l)), (''title'', VStr (les_title l)),
      (''content'', opt_val (les_content l)), (''video_url'', opt_val (les_video_url l)),
      (''order'', VInt (les_order l))]"

definition LessonIn_validate :: "fields \<Rightarrow> verr list + LessonIn" where
  "LessonIn_validate raw =
     (let c = req_str raw ''course_id''; t = req_str raw ''title'';
          n = opt_str raw ''content'' None; v = opt_str raw ''video_url'' None;
          r = dflt_int raw ''order'' 1;
          es = errs_of c @ errs_of t @ errs_of n @ errs_of v @ errs_of r
      in if es = []
         then Inr \<lparr>les_course_id = projr c, les_title = projr t, les_content = projr n,
                   les_video_url = projr v, les_order = projr r\<rparr>
         else Inl es)"

record EnrollmentIn =
  enr_course_id :: string
  enr_user_id :: string
  enr_role :: string

definition EnrollmentIn_dump :: "EnrollmentIn \<Rightarrow> fields" where
  "EnrollmentIn_dump e =
     [(''course_id'', VStr (enr_course_id e)), (''user_id'', VStr (enr_user_id e)),
      (''role'', VStr (enr_role e))]"

definition EnrollmentIn_validate :: "fields \<Rightarrow> verr list + EnrollmentIn" where
  "EnrollmentIn_validate raw =
     (let c = req_str raw ''course_id''; u = req_str raw ''user_id'';
          r = dflt_str raw ''role'' ''student'';
          es = errs_of c @ errs_of u @ errs_of r
      in if es = []
         then Inr \<lparr>enr_course_id = projr c, enr_user_id = projr u, enr_role = projr r\<rparr>
         else Inl es)"

record AssignmentIn =
  asg_course_id :: string
  asg_title :: string
  asg_description :: "string option"
  asg_due_date :: "string option"
  asg_max_points :: int

definition AssignmentIn_dump :: "AssignmentIn \<Rightarrow> fields" where
  "AssignmentIn_dump a =
     [(''course_id'', VStr (asg_course_id a)), (''title'', VStr (asg_title a)),
      (''description'', opt_val (asg_description a)), (''due_date'', opt_val (asg_due_date a)),
      (''max_points'', VInt (asg_max_points a))]"

definition AssignmentIn_validate :: "fields \<Rightarrow> verr list + AssignmentIn" where
  "AssignmentIn_validate raw =
     (let c = req_str raw ''course_id''; t = req_str raw ''title'';
          d = opt_str raw ''description'' None; u = opt_str raw ''due_date'' None;
          m = dflt_int raw ''max_points'' 100;
          es = errs_of c @ errs_of t @ errs_of d @ errs_of u @ errs_of m
      in if es = []
         then Inr \<lparr>asg_course_id = projr c, asg_title = projr t, asg_description = projr d,
                   asg_due_date = projr u, asg_max_points = projr m\<rparr>
         else Inl es)"

record SubmissionIn =
  sub_assignment_id :: string
  sub_user_id :: string
  sub_content :: "string option"

definition SubmissionIn_dump :: "SubmissionIn \<Rightarrow> fields" where
  "SubmissionIn_dump b =
     [(''assignment_id'', VStr (sub_assignment_id b)), (''user_id'', VStr (sub_user_id b)),
      (''content'', opt_val (sub_content b))]"

definition SubmissionIn_validate :: "fields \<Rightarrow> verr list + SubmissionIn" where
  "SubmissionIn_validate raw =
     (let a = req_str raw ''assignment_id''; u = req_str raw ''user_id'';
          c = opt_str raw ''content'' None;
          es = errs_of a @ errs_of u @ errs_of c
      in if es = []
         then Inr \<lparr>sub_assignment_id = projr a, sub_user_id = projr u, sub_content = projr c\<rparr>
         else Inl es)"

section \<open>Handlers\<close>

type_synonym response = "error + view option"


text \<open>
  The three lines every creating handler ends with: \<open>create_document\<close>, then \<open>find_one\<close> by
  the parsed identifier, then \<open>serialize\<close>. Nothing there catches an exception: neither the
  one of \<open>create_document\<close>, which leaves the store as it was, nor InvalidId of \<open>ObjectId\<close>.
\<close>

definition create_and_fetch :: "string \<Rightarrow> fields \<Rightarrow> objectid \<Rightarrow> db \<Rightarrow> response \<times> db" where
  "create_and_fetch coll data new_id s =
     (case create_document coll data new_id s of
        Inl e \<Rightarrow> (Inl e, s)
      | Inr (doc_id_str, s') \<Rightarrow>
          (case ObjectId doc_id_str of
             None \<Rightarrow> (Inl InvalidId, s')
           | Some b \<Rightarrow> (Inr (serialize (find_one [(''_id'', EqOid b)] (s' coll))), s')))"

definition create_course :: "CourseIn \<Rightarrow> objectid \<Rightarrow> db \<Rightarrow> response \<times> db" where
  "create_course course new_id s = create_and_fetch ''course'' (CourseIn_dump course) new_id s"

definition create_lesson :: "LessonIn \<Rightarrow> objectid \<Rightarrow> db \<Rightarrow> response \<times> db" where
  "create_lesson lesson new_id s = create_and_fetch ''lesson'' (LessonIn_dump lesson) new_id s"

definition create_assignment :: "AssignmentIn \<Rightarrow> objectid \<Rightarrow> db \<Rightarrow> response \<times> db" where
  "create_assignment item new_id s =
     create_and_fetch ''assignment'' (AssignmentIn_dump item) new_id s"

definition truthy :: "string option \<Rightarrow> bool" where
  "truthy q = (case q of None \<Rightarrow> False | Some t \<Rightarrow> t \<noteq> [])"

text \<open>
  The compilation of the \<open>$regex\<close> string, for the patterns in the modelled part; a pattern
  with any other metacharacter is outside it.
\<close>

definition metachars :: "char list" where
  "metachars = [CHR 0x5C, CHR ''^'', CHR ''$'', CHR ''|'', CHR ''?'', CHR ''*'', CHR ''+'',
     CHR ''('', CHR '')'', CHR ''['', CHR '']'', CHR ''{'', CHR ''}'']"

fun regex_compile :: "string \<Rightarrow> pat list option" where
  "regex_compile [] = Some []"
| "regex_compile (c # cs) =
     (if c \<in> set metachars then None
      else map_option ((#) (if c = CHR ''.'' then PAny else PChar c)) (regex_compile cs))"

text \<open>
  \<open>cursor.limit(n)\<close> of pymongo: 0 is no limit, and a negative \<open>n\<close> limits to \<open>|n|\<close>.
\<close>

definition limit_docs :: "int \<Rightarrow> document list \<Rightarrow> document list" where
  "limit_docs n docs = (if n = 0 then docs else take (nat \<bar>n\<bar>) docs)"

text \<open>
  \<open>limit\<close> is \<open>None\<close> when the request leaves the parameter out: the default is 50. The
  query goes to the store as a command that holds \<open>|n|\<close>, which the BSON encoder takes only
  if it fits in eight bytes.
\<close>

definition list_courses :: "string option \<Rightarrow> string option \<Rightarrow> int option \<Rightarrow> db \<Rightarrow> error + view option list" where
  "list_courses q tag limit s =
     (let n = (case limit of None \<Rightarrow> 50 | Some n \<Rightarrow> n);
          tagf = (if truthy tag then [(''tags'', Eq (the tag))] else [])
      in if \<not> bson_ok (VInt \<bar>n\<bar>) then Inl OverflowError
         else if truthy q
         then (case regex_compile (the q) of
                 None \<Rightarrow> Inl RegexNotModelled
               | Some ps \<Rightarrow>
                   Inr (map (\<lambda>d. serialize (Some d))
                          (limit_docs n (find_docs ((''title'', Regex ps) # tagf) (s ''course'')))))
         else Inr (map (\<lambda>d. serialize (Some d)) (limit_docs n (find_docs tagf (s ''course'')))))"






definition enroll :: "EnrollmentIn \<Rightarrow> objectid \<Rightarrow> db \<Rightarrow> response \<times> db" where
  "enroll enr new_id s =
     (case find_one [(''course_id'', Eq (enr_course_id enr)), (''user_id'', Eq (enr_user_id enr))]
             (s ''enrollment'') of
        Some existing \<Rightarrow> (Inr (serialize (Some existing)), s)
      | None \<Rightarrow> create_and_fetch ''enrollment'' (EnrollmentIn_dump enr) new_id s)"

definition submit :: "SubmissionIn \<Rightarrow> objectid \<Rightarrow> db \<Rightarrow> response \<times> db" where
  "submit item new_id s =
     (let existing = find_one [(''assignment_id'', Eq (sub_assignment_id item)),
                               (''user_id'', Eq (sub_user_id item))] (s ''submission'');
          data = SubmissionIn_dump item
      in case existing of
           Some ex \<Rightarrow>
             (let s' = s(''submission'' :=
                          update_one [(''_id'', EqId (doc_id ex))] data (s ''submission''))
              in (Inr (serialize (find_one [(''_id'', EqId (doc_id ex))] (s' ''submission''))), s'))
         | None \<Rightarrow> create_and_fetch ''submission'' data new_id s)"

text \<open>
  The dispatch of a POST request: the body is validated against the handler's request model
  before the handler runs, and a body that fails never reaches it.
\<close>

datatype route = PostCourses | PostLessons | PostEnrollments | PostAssignments | PostSubmissions

definition post :: "route \<Rightarrow> fields \<Rightarrow> objectid \<Rightarrow> db \<Rightarrow> response \<times> db" where
  "post r raw new_id s = (case r of
      PostCourses \<Rightarrow> (case CourseIn_validate raw of
          Inl es \<Rightarrow> (Inl (ValidationError es), s) | Inr m \<Rightarrow> create_course m new_id s)
    | PostLessons \<Rightarrow> (case LessonIn_validate raw of
          Inl es \<Rightarrow> (Inl (ValidationError es), s) | Inr m \<Rightarrow> create_lesson m new_id s)
    | PostEnrollments \<Rightarrow> (case EnrollmentIn_validate raw of
          Inl es \<Rightarrow> (Inl (ValidationError es), s) | Inr m \<Rightarrow> enroll m new_id s)
    | PostAssignments \<Rightarrow> (case AssignmentIn_validate raw of
          Inl es \<Rightarrow> (Inl (ValidationError es), s) | Inr m \<Rightarrow> create_assignment m new_id s)
    | PostSubmissions \<Rightarrow> (case SubmissionIn_validate raw of
          Inl es \<Rightarrow> (Inl (ValidationError es), s) | Inr m \<Rightarrow> submit m new_id s))"

text \<open>The fields a request model declares without a default.\<close>

fun required_fields :: "route \<Rightarrow> string list" where
  "required_fields PostCourses = [''title'', ''description'', ''instructor_id'']"
| "required_fields PostLessons = [''course_id'', ''title'']"
| "required_fields PostEnrollments = [''course_id'', ''user_id'']"
| "required_fields PostAssignments = [''course_id'', ''title'']"
| "required_fields PostSubmissions = [''assignment_id'', ''user_id'']"

section \<open>Dedup keys\<close>

text \<open>
  The queries by which \<open>enroll\<close> and \<open>submit\<close> look for an existing record; the records of
  a pair are the documents such a query finds.
\<close>

definition enrollment_key :: "string \<Rightarrow> string \<Rightarrow> filter" where
  "enrollment_key c u = [(''course_id'', Eq c), (''user_id'', Eq u)]"

definition submission_key :: "string \<Rightarrow> string \<Rightarrow> filter" where
  "submission_key a u = [(''assignment_id'', Eq a), (''user_id'', Eq u)]"

text \<open>What the \<open>$set\<close> of \<open>submit\<close> makes of the document it finds.\<close>

definition resubmitted :: "SubmissionIn \<Rightarrow> document \<Rightarrow> document" where
  "resubmitted b d = d\<lparr>doc_fields := set_fields (SubmissionIn_dump b) (doc_fields d)\<rparr>"

section \<open>The fields of the request models\<close>












section \<open>Title search\<close>

text \<open>
  A filter string without a character that means something else than itself in a regular
  expression; the spec's containment of the filter string in a title under case-insensitive
  comparison; strings of ASCII characters, on which the case-insensitive comparison of
  \<open>lower\<close> is the one MongoDB makes; a course whose title, if it has one, is an ASCII string
  or a scalar of another type.
\<close>

definition plain_pattern :: "string \<Rightarrow> bool" where
  "plain_pattern q = list_all (\<lambda>c. c \<notin> set metachars \<and> c \<noteq> CHR ''.'') q"

definition contains_ci :: "string \<Rightarrow> string \<Rightarrow> bool" where
  "contains_ci q t = sublist (map lower q) (map lower t)"

definition is_ascii :: "string \<Rightarrow> bool" where
  "is_ascii t = list_all (\<lambda>c. of_char c < (128 :: nat)) t"

definition ascii_title :: "document \<Rightarrow> bool" where
  "ascii_title d = (case map_of (doc_fields d) ''title'' of
      Some (VStr t) \<Rightarrow> is_ascii t | Some (VList vs) \<Rightarrow> False | _ \<Rightarrow> True)"

section \<open>Lesson order\<close>



section \<open>Interleaved calls\<close>

text \<open>
  The handlers run in a pool of threads, so two calls can take turns between their accesses to
  the store. A call of \<open>enroll\<close> or \<open>submit\<close> is split at the point where it has looked
  for an existing record and not yet acted on what it found: \<open>Start\<close> is a call that has not
  begun, \<open>Checked\<close> one that holds the result of its \<open>find_one\<close>, \<open>Done\<close> one that has
  returned. The two steps of a call, taken one after the other, are the handler
  (\<open>enroll_steps\<close>, \<open>submit_steps\<close>). \<open>interleave\<close> runs two calls by a schedule that says
  whose turn each step is.
\<close>

datatype 'a call = Start 'a | Checked 'a "document option" | Done response

definition enroll_step :: "objectid \<Rightarrow> EnrollmentIn call \<Rightarrow> db \<Rightarrow> EnrollmentIn call \<times> db" where
  "enroll_step new_id t s = (case t of
      Start enr \<Rightarrow>
        (Checked enr (find_one [(''course_id'', Eq (enr_course_id enr)), (''user_id'', Eq (enr_user_id enr))]
                       (s ''enrollment'')), s)
    | Checked enr (Some existing) \<Rightarrow> (Done (Inr (serialize (Some existing))), s)
    | Checked enr None \<Rightarrow>
        (case create_and_fetch ''enrollment'' (EnrollmentIn_dump enr) new_id s of
           (r, s') \<Rightarrow> (Done r, s'))
    | Done r \<Rightarrow> (Done r, s))"

definition submit_step :: "objectid \<Rightarrow> SubmissionIn call \<Rightarrow> db \<Rightarrow> SubmissionIn call \<times> db" where
  "submit_step new_id t s = (case t of
      Start item \<Rightarrow>
        (Checked item (find_one [(''assignment_id'', Eq (sub_assignment_id item)),
                                  (''user_id'', Eq (sub_user_id item))] (s ''submission'')), s)
    | Checked item (Some ex) \<Rightarrow>
        (let s' = s(''submission'' :=
                      update_one [(''_id'', EqId (doc_id ex))] (SubmissionIn_dump item) (s ''submission''))
         in (Done (Inr (serialize (find_one [(''_id'', EqId (doc_id ex))] (s' ''submission'')))), s'))
    | Checked item None \<Rightarrow>
        (case create_and_fetch ''submission'' (SubmissionIn_dump item) new_id s of
           (r, s') \<Rightarrow> (Done r, s'))
    | Done r \<Rightarrow> (Done r, s))"

fun interleave :: "(objectid \<Rightarrow> 'a call \<Rightarrow> db \<Rightarrow> 'a call \<times> db) \<Rightarrow> bool list \<Rightarrow> objectid \<Rightarrow> objectid
    \<Rightarrow> 'a call \<times> 'a call \<times> db \<Rightarrow> 'a call \<times> 'a call \<times> db" where
  "interleave step [] i1 i2 c = c"
| "interleave step (first # sched) i1 i2 (t1, t2, s) =
     (if first
      then (case step i1 t1 s of (t1', s') \<Rightarrow> interleave step sched i1 i2 (t1', t2, s'))
      else (case step i2 t2 s of (t2', s') \<Rightarrow> interleave step sched i1 i2 (t1, t2', s')))"

section \<open>Well-formed identifier strings\<close>


section \<open>Example data\<close>







definition body_without_title :: fields where
  "body_without_title = [(''description'', VStr ''An introduction''), (''instructor_id'', VStr ''u1'')]"

definition empty_db :: db where
  "empty_db = (\<lambda>_. [])"

definition sub_v1 :: SubmissionIn where
  "sub_v1 = \<lparr>sub_assignment_id = ''a1'', sub_user_id = ''u2'', sub_content = Some ''v1''\<rparr>"

definition sub_v2 :: SubmissionIn where
  "sub_v2 = \<lparr>sub_assignment_id = ''a1'', sub_user_id = ''u2'', sub_content = Some ''v2''\<rparr>"

definition sub_none :: SubmissionIn where
  "sub_none = \<lparr>sub_assignment_id = ''a1'', sub_user_id = ''u2'', sub_content = None\<rparr>"

definition body_without_content :: fields where
  "body_without_content = [(''assignment_id'', VStr ''a1''), (''user_id'', VStr ''u2'')]"

definition graded_doc :: document where
  "graded_doc = \<lparr>doc_id = 7, doc_fields =
     [(''assignment_id'', VStr ''a1''), (''user_id'', VStr ''u2''), (''content'', VStr ''v1''),
      (''grade'', VFloat 9), (''feedback'', VStr ''good'')]\<rparr>"

definition graded_db :: db where
  "graded_db = (\<lambda>_. [])(''submission'' := [graded_doc])"



definition two_courses :: db where
  "two_courses = (\<lambda>_. [])(''course'' :=
     [\<lparr>doc_id = 1, doc_fields = [(''title'', VStr ''abc'')]\<rparr>,
      \<lparr>doc_id = 2, doc_fields = [(''title'', VStr ''xbz'')]\<rparr>])"





definition enr_student :: EnrollmentIn where
  "enr_student = \<lparr>enr_course_id = ''c1'', enr_user_id = ''u2'', enr_role = ''student''\<rparr>"

definition enrollment_1 :: document where
  "enrollment_1 = \<lparr>doc_id = 1, doc_fields = EnrollmentIn_dump enr_student\<rparr>"

definition enrollment_2 :: document where
  "enrollment_2 = \<lparr>doc_id = 2, doc_fields = EnrollmentIn_dump enr_student\<rparr>"

definition submission_1 :: document where
  "submission_1 = \<lparr>doc_id = 1, doc_fields = SubmissionIn_dump sub_v1\<rparr>"

definition submission_2 :: document where
  "submission_2 = \<lparr>doc_id = 2, doc_fields = SubmissionIn_dump sub_v2\<rparr>"



section \<open>Identifier round trip\<close>

lemma length_hex_digits: "length (hex_digits k n) = k"
  by (induction k arbitrary: n) simp_all

lemma hexval_hexdigit: "hexval (hexdigit d) = Some (d mod 16)"
proof -
  have "m \<in> {0, 1, 2, 3, 4, 5, 6, 7, 8, 9, 10, 11, 12, 13, 14, 15}" if "m < 16" for m :: nat
    using that by (simp; arith)
  then have "d mod 16 \<in> {0, 1, 2, 3, 4, 5, 6, 7, 8, 9, 10, 11, 12, 13, 14, 15}"
    by simp
  then show ?thesis
    unfolding hexval_def hexdigit_def by (elim insertE emptyE) simp_all
qed

lemma hex_digits_numeral:
  "hex_digits (numeral k) n = hex_digits (pred_numeral k) (n div 16) @ [hexdigit (n mod 16)]"
  by (simp only: numeral_eq_Suc [of k] hex_digits.simps)




lemma hexval_not_whitespace: "hexval c = Some d \<Longrightarrow> c \<notin> set ascii_whitespace"
proof
  assume "hexval c = Some d" and "c \<in> set ascii_whitespace"
  then show False
    by (auto simp: ascii_whitespace_def hexval_def)
qed

lemma fromhex_append:
  "fromhex xs = Some bs \<Longrightarrow> fromhex (xs @ ys) = map_option ((@) bs) (fromhex ys)"
proof (induction xs arbitrary: bs rule: fromhex.induct)
  case 1
  then show ?case by (simp add: option.map_ident)
next
  case (2 c)
  then show ?case
    by (cases ys) (auto split: if_splits simp: option.map_ident)
next
  case (3 c d cs)
  show ?case
  proof (cases "c \<in> set ascii_whitespace")
    case True
    with 3 show ?thesis by simp
  next
    case False
    with "3.prems" obtain t b bs' where h: "hexval c = Some t" "hexval d = Some b"
      "fromhex cs = Some bs'" "bs = (16 * t + b) # bs'"
      by (auto split: option.splits)
    with False "3.IH"(2) [of t b bs'] show ?thesis
      by (simp add: option.map_comp comp_def)
  qed
qed

lemma fromhex_pair:
  "hexval c = Some t \<Longrightarrow> hexval d = Some b \<Longrightarrow> fromhex [c, d] = Some [16 * t + b]"
  using hexval_not_whitespace [of c t] by simp

lemma fromhex_hex_digits: "fromhex (hex_digits (2 * k) n) = Some (bytes_of k n)"
proof (induction k arbitrary: n)
  case 0
  show ?case by simp
next
  case (Suc k)
  have e: "hex_digits (2 * Suc k) n
      = hex_digits (2 * k) (n div 256) @ [hexdigit (n div 16 mod 16), hexdigit (n mod 16)]"
  proof -
    have "n div 16 div 16 = n div 256"
      using div_mult2_eq [of n 16 16] by simp
    then show ?thesis by simp
  qed
  have "16 * (n div 16 mod 16) + n mod 16 = n mod 256"
    using mod_mult2_eq [of n 16 16] by simp
  then have "fromhex [hexdigit (n div 16 mod 16), hexdigit (n mod 16)] = Some [n mod 256]"
    using fromhex_pair [OF hexval_hexdigit hexval_hexdigit, of "n div 16 mod 16" "n mod 16"]
    by simp
  with fromhex_append [OF Suc.IH, of "n div 256"] show ?case
    unfolding e by simp
qed

lemma ObjectId_str_oid: "ObjectId (str_oid w) = Some (binary w)"
  using fromhex_hex_digits [of 12 "unat w"]
  by (simp add: ObjectId_def str_oid_def binary_def length_hex_digits)

lemma bytes_of_inj: "bytes_of k m = bytes_of k n \<Longrightarrow> m mod 256 ^ k = n mod 256 ^ k"
proof (induction k arbitrary: m n)
  case 0
  show ?case by simp
next
  case (Suc k)
  from Suc.prems have "bytes_of k (m div 256) = bytes_of k (n div 256)" and b: "m mod 256 = n mod 256"
    by simp_all
  from Suc.IH [OF this(1)] have "m div 256 mod 256 ^ k = n div 256 mod 256 ^ k" .
  with b show ?case
    by (simp add: mod_mult2_eq)
qed

lemma binary_eq_iff [simp]: "binary v = binary w \<longleftrightarrow> v = w"
proof
  assume "binary v = binary w"
  then have "unat v mod 256 ^ 12 = unat w mod 256 ^ 12"
    unfolding binary_def by (rule bytes_of_inj)
  moreover have "unat v < 2 ^ 96" "unat w < 2 ^ 96"
    using unsigned_less [of v] unsigned_less [of w] by simp_all
  ultimately have "unat v = unat w"
    by simp
  then show "v = w"
    by (rule word_unat_eq_iff [THEN iffD2])
qed simp





section \<open>Store lemmas\<close>

lemma find_one_SomeD: "find_one filt docs = Some d \<Longrightarrow> d \<in> set docs \<and> matches filt d"
  by (auto simp: find_one_def find_Some_iff)

lemma find_one_None_iff: "find_one filt docs = None \<longleftrightarrow> (\<forall>d\<in>set docs. \<not> matches filt d)"
  by (auto simp: find_one_def find_None_iff)

lemma find_one_append:
  "find_one filt (xs @ ys) = (case find_one filt xs of None \<Rightarrow> find_one filt ys | Some d \<Rightarrow> Some d)"
  by (induction xs) (auto simp: find_one_def)

lemma matches_id [simp]: "matches [(''_id'', EqId i)] d \<longleftrightarrow> doc_id d = i"
  by (simp add: matches_def)

lemma find_one_snoc_first:
  "\<forall>d\<in>set xs. \<not> matches filt d \<Longrightarrow> matches filt x \<Longrightarrow> find_one filt (xs @ [x]) = Some x"
  by (induction xs) (simp_all add: find_one_def)

lemma find_one_id_insert:
  "i \<notin> doc_id ` set docs \<Longrightarrow>
   find_one [(''_id'', EqId i)] (docs @ [\<lparr>doc_id = i, doc_fields = data\<rparr>])
     = Some \<lparr>doc_id = i, doc_fields = data\<rparr>"
  by (rule find_one_snoc_first) auto

lemma create_and_fetch_fresh:
  "encodable data \<Longrightarrow> new_id \<notin> doc_id ` set (s coll) \<Longrightarrow>
   create_and_fetch coll data new_id s =
     (Inr (Some (serialize_doc \<lparr>doc_id = new_id, doc_fields = data\<rparr>)),
      s(coll := s coll @ [\<lparr>doc_id = new_id, doc_fields = data\<rparr>]))"
  using find_one_id_insert [of new_id "s coll" data]
  by (simp add: create_and_fetch_def create_document_def ObjectId_str_oid serialize_def insert_one_def)


lemma encodable_EnrollmentIn_dump: "encodable (EnrollmentIn_dump e)"
  by (simp add: encodable_def EnrollmentIn_dump_def)

lemma encodable_SubmissionIn_dump: "encodable (SubmissionIn_dump b)"
  by (simp add: encodable_def SubmissionIn_dump_def opt_val_def split: option.splits)

lemma matches_enrollment_dump:
  "matches [(''course_id'', Eq (enr_course_id e)), (''user_id'', Eq (enr_user_id e))]
     \<lparr>doc_id = i, doc_fields = EnrollmentIn_dump e\<rparr>"
  by (simp add: matches_def EnrollmentIn_dump_def)

lemma enroll_existing:
  "find_one [(''course_id'', Eq (enr_course_id e)), (''user_id'', Eq (enr_user_id e))] (s ''enrollment'') = Some ex
   \<Longrightarrow> enroll e i s = (Inr (Some (serialize_doc ex)), s)"
  by (simp add: enroll_def serialize_def)

lemma enroll_absent:
  "find_one [(''course_id'', Eq (enr_course_id e)), (''user_id'', Eq (enr_user_id e))] (s ''enrollment'') = None
   \<Longrightarrow> i \<notin> doc_id ` set (s ''enrollment'')
   \<Longrightarrow> enroll e i s = (Inr (Some (serialize_doc \<lparr>doc_id = i, doc_fields = EnrollmentIn_dump e\<rparr>)),
      s(''enrollment'' := s ''enrollment'' @ [\<lparr>doc_id = i, doc_fields = EnrollmentIn_dump e\<rparr>]))"
  by (simp add: enroll_def create_and_fetch_fresh encodable_EnrollmentIn_dump)

lemma map_of_map_val:
  "map_of (map (\<lambda>(k, v). (k, f v)) al) k = map_option f (map_of al k)"
  by (induction al) auto

lemma serialize_doc_id: "map_of (serialize_doc d) ''id'' = Some (VStr (str_oid (doc_id d)))"
  unfolding serialize_doc_def map_of_map_val by (simp add: update_conv' iso_value_def)

section \<open>Enrollment\<close>

text \<open>
  C1. Two calls of \<open>enroll\<close> in sequence with the same \<open>(course_id, user_id)\<close>, on a store
  that holds at most one record of the pair and with a fresh identifier for the first call:
  afterwards the store holds exactly one record of the pair, the second call leaves the store
  as the first call left it, and it returns the view the first call returned (in particular
  the same \<open>id\<close>), whatever role it was given.
\<close>

theorem enroll_twice:
  assumes same: "enr_course_id e2 = enr_course_id e1" "enr_user_id e2 = enr_user_id e1"
    and one: "length (find_docs (enrollment_key (enr_course_id e1) (enr_user_id e1)) (s ''enrollment'')) \<le> 1"
    and fresh: "i1 \<notin> doc_id ` set (s ''enrollment'')"
    and first: "enroll e1 i1 s = (r1, s1)"
    and second: "enroll e2 i2 s1 = (r2, s2)"
  shows "length (find_docs (enrollment_key (enr_course_id e1) (enr_user_id e1)) (s2 ''enrollment'')) = 1
       \<and> s2 = s1
       \<and> (\<exists>d \<in> set (s1 ''enrollment''). r1 = Inr (Some (serialize_doc d)) \<and> r2 = r1
            \<and> map_of (serialize_doc d) ''id'' = Some (VStr (str_oid (doc_id d))))"
proof (cases "find_one (enrollment_key (enr_course_id e1) (enr_user_id e1)) (s ''enrollment'')")
  case None
  let ?D = "\<lparr>doc_id = i1, doc_fields = EnrollmentIn_dump e1\<rparr>"
  from None have none: "\<forall>d\<in>set (s ''enrollment''). \<not> matches (enrollment_key (enr_course_id e1) (enr_user_id e1)) d"
    by (simp add: find_one_None_iff)
  from None fresh first have r1: "r1 = Inr (Some (serialize_doc ?D))"
    and s1: "s1 = s(''enrollment'' := s ''enrollment'' @ [?D])"
    by (simp_all add: enroll_absent enrollment_key_def)
  have mD: "matches (enrollment_key (enr_course_id e1) (enr_user_id e1)) ?D"
    using matches_enrollment_dump [of e1 i1] by (simp add: enrollment_key_def)
  have f1: "find_one (enrollment_key (enr_course_id e1) (enr_user_id e1)) (s1 ''enrollment'') = Some ?D"
    using None mD by (simp add: s1 find_one_append) (simp add: find_one_def)
  from f1 second same have r2: "r2 = Inr (Some (serialize_doc ?D))" and s2: "s2 = s1"
    by (simp_all add: enroll_existing enrollment_key_def)
  have cnt: "find_docs (enrollment_key (enr_course_id e1) (enr_user_id e1)) (s1 ''enrollment'') = [?D]"
    using none mD by (simp add: s1 find_docs_def)
  show ?thesis
    using r1 r2 s2 cnt by (simp add: serialize_doc_id) (simp add: s1)
next
  case (Some ex)
  from Some first have r1: "r1 = Inr (Some (serialize_doc ex))" and s1: "s1 = s"
    by (simp_all add: enroll_existing enrollment_key_def)
  from Some second same have r2: "r2 = Inr (Some (serialize_doc ex))" and s2: "s2 = s1"
    by (simp_all add: s1 enroll_existing enrollment_key_def)
  from Some have ex: "ex \<in> set (s ''enrollment'')" "matches (enrollment_key (enr_course_id e1) (enr_user_id e1)) ex"
    by (auto dest: find_one_SomeD)
  then have "ex \<in> set (find_docs (enrollment_key (enr_course_id e1) (enr_user_id e1)) (s ''enrollment''))"
    by (simp add: find_docs_def)
  then have "length (find_docs (enrollment_key (enr_course_id e1) (enr_user_id e1)) (s ''enrollment'')) \<noteq> 0"
    by auto
  with one have "length (find_docs (enrollment_key (enr_course_id e1) (enr_user_id e1)) (s ''enrollment'')) = 1"
    by linarith
  then show ?thesis
    using r1 r2 s1 s2 ex by (auto simp: serialize_doc_id)
qed


theorem enroll_twice_witness:
  "length (find_docs (enrollment_key ''c1'' ''u2'') ((\<lambda>_. []) ''enrollment'')) \<le> 1
   \<and> (1 :: objectid) \<notin> doc_id ` set ((\<lambda>_. []) ''enrollment'')
   \<and> enroll \<lparr>enr_course_id = ''c1'', enr_user_id = ''u2'', enr_role = ''ta''\<rparr> 2
        (snd (enroll \<lparr>enr_course_id = ''c1'', enr_user_id = ''u2'', enr_role = ''student''\<rparr> 1 (\<lambda>_. [])))
     = enroll \<lparr>enr_course_id = ''c1'', enr_user_id = ''u2'', enr_role = ''student''\<rparr> 1 (\<lambda>_. [])
   \<and> snd (enroll \<lparr>enr_course_id = ''c1'', enr_user_id = ''u2'', enr_role = ''student''\<rparr> 1 (\<lambda>_. [])) ''enrollment''
     = [\<lparr>doc_id = 1, doc_fields = [(''course_id'', VStr ''c1''), (''user_id'', VStr ''u2''), (''role'', VStr ''student'')]\<rparr>]"
proof -
  let ?e1 = "\<lparr>enr_course_id = ''c1'', enr_user_id = ''u2'', enr_role = ''student''\<rparr>"
  let ?e2 = "\<lparr>enr_course_id = ''c1'', enr_user_id = ''u2'', enr_role = ''ta''\<rparr>"
  let ?s = "(\<lambda>_. []) :: db"
  have h1: "length (find_docs (enrollment_key (enr_course_id ?e1) (enr_user_id ?e1)) (?s ''enrollment'')) \<le> 1"
    by (simp add: find_docs_def)
  have h2: "(1 :: objectid) \<notin> doc_id ` set (?s ''enrollment'')"
    by simp
  have st: "snd (enroll ?e1 1 ?s) ''enrollment'' = [\<lparr>doc_id = 1, doc_fields = EnrollmentIn_dump ?e1\<rparr>]"
    by (simp add: enroll_def find_one_def create_and_fetch_def create_document_def insert_one_def
        ObjectId_str_oid encodable_EnrollmentIn_dump)
  from enroll_twice [of ?e2 ?e1 ?s 1 "fst (enroll ?e1 1 ?s)" "snd (enroll ?e1 1 ?s)" 2
      "fst (enroll ?e2 2 (snd (enroll ?e1 1 ?s)))" "snd (enroll ?e2 2 (snd (enroll ?e1 1 ?s)))", OF _ _ h1 h2]
  have "snd (enroll ?e2 2 (snd (enroll ?e1 1 ?s))) = snd (enroll ?e1 1 ?s)
      \<and> fst (enroll ?e2 2 (snd (enroll ?e1 1 ?s))) = fst (enroll ?e1 1 ?s)"
    by auto
  then have "enroll ?e2 2 (snd (enroll ?e1 1 ?s)) = enroll ?e1 1 ?s"
    by (simp add: prod_eq_iff)
  with h1 h2 st show ?thesis
    by (simp add: EnrollmentIn_dump_def)
qed

section \<open>Submission\<close>

lemma update_one_id:
  "distinct (map doc_id docs) \<Longrightarrow>
   update_one [(''_id'', EqId i)] upd docs =
     map (\<lambda>x. if doc_id x = i then x\<lparr>doc_fields := set_fields upd (doc_fields x)\<rparr> else x) docs"
proof (induction docs)
  case Nil
  show ?case by simp
next
  case (Cons d ds)
  show ?case
  proof (cases "doc_id d = i")
    case True
    have "doc_id x \<noteq> i" if "x \<in> set ds" for x
    proof
      assume "doc_id x = i"
      with that have "i \<in> doc_id ` set ds" by blast
      with Cons.prems True show False by simp
    qed
    then have "map (\<lambda>x. if doc_id x = i then x\<lparr>doc_fields := set_fields upd (doc_fields x)\<rparr> else x) ds = ds"
      by (simp add: map_idI)
    with True show ?thesis by simp
  next
    case False
    with Cons show ?thesis by simp
  qed
qed

lemma find_one_id_map:
  "distinct (map doc_id docs) \<Longrightarrow> d \<in> set docs \<Longrightarrow> (\<And>x. doc_id (f x) = doc_id x) \<Longrightarrow>
   find_one [(''_id'', EqId (doc_id d))] (map f docs) = Some (f d)"
  by (induction docs) (auto simp: find_one_def)

lemma find_one_find_docs:
  "find_one filt docs = (case find_docs filt docs of [] \<Rightarrow> None | d # _ \<Rightarrow> Some d)"
  by (induction docs) (auto simp: find_one_def find_docs_def)

lemma map_of_resubmitted:
  "map_of (doc_fields (resubmitted b d)) k =
     (if k = ''content'' then Some (opt_val (sub_content b))
      else if k = ''user_id'' then Some (VStr (sub_user_id b))
      else if k = ''assignment_id'' then Some (VStr (sub_assignment_id b))
      else map_of (doc_fields d) k)"
  by (simp add: resubmitted_def SubmissionIn_dump_def update_conv')

lemma matches_resubmitted:
  "matches (submission_key (sub_assignment_id b) (sub_user_id b)) (resubmitted b d)"
  by (simp add: matches_def submission_key_def map_of_resubmitted)

lemma submit_existing:
  assumes "distinct (map doc_id (s ''submission''))"
    and "find_one (submission_key (sub_assignment_id b) (sub_user_id b)) (s ''submission'') = Some ex"
  shows "submit b i s =
     (Inr (Some (serialize_doc (resubmitted b ex))),
      s(''submission'' := map (\<lambda>x. if doc_id x = doc_id ex then resubmitted b x else x) (s ''submission'')))"
proof -
  from assms(2) have ex: "ex \<in> set (s ''submission'')"
    by (auto dest: find_one_SomeD)
  have "find_one [(''_id'', EqId (doc_id ex))]
          (map (\<lambda>x. if doc_id x = doc_id ex
                    then x\<lparr>doc_fields := set_fields (SubmissionIn_dump b) (doc_fields x)\<rparr> else x)
             (s ''submission''))
        = Some (ex\<lparr>doc_fields := set_fields (SubmissionIn_dump b) (doc_fields ex)\<rparr>)"
    using find_one_id_map [OF assms(1) ex, of "\<lambda>x. if doc_id x = doc_id ex
                    then x\<lparr>doc_fields := set_fields (SubmissionIn_dump b) (doc_fields x)\<rparr> else x"]
    by simp
  with assms show ?thesis
    unfolding resubmitted_def
    by (simp add: submit_def submission_key_def update_one_id serialize_def Let_def)
qed

lemma submit_absent:
  assumes "find_one (submission_key (sub_assignment_id b) (sub_user_id b)) (s ''submission'') = None"
    and "i \<notin> doc_id ` set (s ''submission'')"
  shows "submit b i s =
     (Inr (Some (serialize_doc \<lparr>doc_id = i, doc_fields = SubmissionIn_dump b\<rparr>)),
      s(''submission'' := s ''submission'' @ [\<lparr>doc_id = i, doc_fields = SubmissionIn_dump b\<rparr>]))"
  using assms
  by (simp add: submit_def submission_key_def create_and_fetch_fresh encodable_SubmissionIn_dump Let_def)

lemma find_docs_resubmitted:
  assumes "distinct (map doc_id docs)"
    and "find_docs (submission_key (sub_assignment_id b) (sub_user_id b)) docs = [ex]"
  shows "find_docs (submission_key (sub_assignment_id b) (sub_user_id b))
           (map (\<lambda>x. if doc_id x = doc_id ex then resubmitted b x else x) docs) = [resubmitted b ex]"
proof -
  let ?P = "matches (submission_key (sub_assignment_id b) (sub_user_id b))"
  let ?f = "\<lambda>x. if doc_id x = doc_id ex then resubmitted b x else x"
  from assms(2) have "ex \<in> set (filter ?P docs)"
    by (simp add: find_docs_def)
  then have ex: "ex \<in> set docs" "?P ex"
    by simp_all
  have "?P (?f x) = ?P x" if "x \<in> set docs" for x
  proof (cases "doc_id x = doc_id ex")
    case True
    with assms(1) ex(1) that have "x = ex"
      by (meson distinct_map inj_onD)
    with ex(2) show ?thesis by (simp add: matches_resubmitted)
  next
    case False
    then show ?thesis by simp
  qed
  then have "filter (?P \<circ> ?f) docs = filter ?P docs"
    by (intro filter_cong) simp_all
  then have "filter ?P (map ?f docs) = map ?f (filter ?P docs)"
    by (simp add: filter_map)
  with assms(2) show ?thesis
    by (simp add: find_docs_def)
qed


lemma doc_id_resubmitted [simp]: "doc_id (resubmitted b d) = doc_id d"
  by (simp add: resubmitted_def)

lemma submit_once:
  assumes one: "length (find_docs (submission_key (sub_assignment_id b) (sub_user_id b)) (s ''submission'')) \<le> 1"
    and uniq: "distinct (map doc_id (s ''submission''))"
    and fresh: "i \<notin> doc_id ` set (s ''submission'')"
    and run: "submit b i s = (r, s')"
  shows "\<exists>d. find_docs (submission_key (sub_assignment_id b) (sub_user_id b)) (s' ''submission'') = [d]
           \<and> distinct (map doc_id (s' ''submission''))
           \<and> r = Inr (Some (serialize_doc d))"
proof (cases "find_docs (submission_key (sub_assignment_id b) (sub_user_id b)) (s ''submission'')")
  case Nil
  let ?D = "\<lparr>doc_id = i, doc_fields = SubmissionIn_dump b\<rparr>"
  from Nil have "find_one (submission_key (sub_assignment_id b) (sub_user_id b)) (s ''submission'') = None"
    by (simp add: find_one_find_docs)
  with fresh run have r: "r = Inr (Some (serialize_doc ?D))"
    and s': "s' = s(''submission'' := s ''submission'' @ [?D])"
    by (simp_all add: submit_absent)
  have "matches (submission_key (sub_assignment_id b) (sub_user_id b)) ?D"
    by (simp add: matches_def submission_key_def SubmissionIn_dump_def)
  with Nil have "find_docs (submission_key (sub_assignment_id b) (sub_user_id b)) (s' ''submission'') = [?D]"
    by (simp add: s' find_docs_def)
  moreover from uniq fresh have "distinct (map doc_id (s' ''submission''))"
    by (simp add: s')
  ultimately show ?thesis
    using r by blast
next
  case (Cons ex rest)
  with one have found: "find_docs (submission_key (sub_assignment_id b) (sub_user_id b)) (s ''submission'') = [ex]"
    by simp
  then have "find_one (submission_key (sub_assignment_id b) (sub_user_id b)) (s ''submission'') = Some ex"
    by (simp add: find_one_find_docs)
  with uniq run have r: "r = Inr (Some (serialize_doc (resubmitted b ex)))"
    and s': "s' = s(''submission'' := map (\<lambda>x. if doc_id x = doc_id ex then resubmitted b x else x) (s ''submission''))"
    by (simp_all add: submit_existing)
  have "doc_id \<circ> (\<lambda>x. if doc_id x = doc_id ex then resubmitted b x else x) = doc_id"
    by (rule ext) simp
  then have "map doc_id (map (\<lambda>x. if doc_id x = doc_id ex then resubmitted b x else x) (s ''submission''))
        = map doc_id (s ''submission'')"
    by (simp only: map_map)
  with uniq have "distinct (map doc_id (s' ''submission''))"
    by (simp only: s' fun_upd_same)
  moreover from find_docs_resubmitted [OF uniq found]
  have "find_docs (submission_key (sub_assignment_id b) (sub_user_id b)) (s' ''submission'') = [resubmitted b ex]"
    by (simp add: s')
  ultimately show ?thesis
    using r by blast
qed

text \<open>
  C2. Two calls of \<open>submit\<close> in sequence with the same \<open>(assignment_id, user_id)\<close>, on a
  store with unique identifiers that holds at most one record of the pair, and with a fresh
  identifier for the first call: afterwards the store holds exactly one record of the pair,
  its \<open>content\<close> is the second call's, and its identifier is the \<open>id\<close> of the view either
  call returned.
\<close>

theorem submit_twice:
  assumes same: "sub_assignment_id b2 = sub_assignment_id b1" "sub_user_id b2 = sub_user_id b1"
    and one: "length (find_docs (submission_key (sub_assignment_id b1) (sub_user_id b1)) (s ''submission'')) \<le> 1"
    and uniq: "distinct (map doc_id (s ''submission''))"
    and fresh: "i1 \<notin> doc_id ` set (s ''submission'')"
    and first: "submit b1 i1 s = (r1, s1)"
    and second: "submit b2 i2 s1 = (r2, s2)"
  shows "\<exists>d. find_docs (submission_key (sub_assignment_id b1) (sub_user_id b1)) (s2 ''submission'') = [d]
           \<and> map_of (doc_fields d) ''content'' = Some (opt_val (sub_content b2))
           \<and> (\<exists>v1. r1 = Inr (Some v1) \<and> map_of v1 ''id'' = Some (VStr (str_oid (doc_id d))))
           \<and> (\<exists>v2. r2 = Inr (Some v2) \<and> map_of v2 ''id'' = Some (VStr (str_oid (doc_id d))))"
proof -
  from submit_once [OF one uniq fresh first] obtain d1
    where d1: "find_docs (submission_key (sub_assignment_id b1) (sub_user_id b1)) (s1 ''submission'') = [d1]"
      and uniq1: "distinct (map doc_id (s1 ''submission''))"
      and r1: "r1 = Inr (Some (serialize_doc d1))"
    by blast
  from d1 same have found: "find_docs (submission_key (sub_assignment_id b2) (sub_user_id b2)) (s1 ''submission'') = [d1]"
    by simp
  then have "find_one (submission_key (sub_assignment_id b2) (sub_user_id b2)) (s1 ''submission'') = Some d1"
    by (simp add: find_one_find_docs)
  with uniq1 second have r2: "r2 = Inr (Some (serialize_doc (resubmitted b2 d1)))"
    and s2: "s2 = s1(''submission'' := map (\<lambda>x. if doc_id x = doc_id d1 then resubmitted b2 x else x) (s1 ''submission''))"
    by (simp_all add: submit_existing)
  from find_docs_resubmitted [OF uniq1 found] same
  have "find_docs (submission_key (sub_assignment_id b1) (sub_user_id b1)) (s2 ''submission'') = [resubmitted b2 d1]"
    by (simp add: s2)
  then show ?thesis
    using r1 r2 by (simp add: map_of_resubmitted serialize_doc_id)
qed

theorem submit_twice_witness:
  "sub_assignment_id sub_v2 = sub_assignment_id sub_v1
   \<and> sub_user_id sub_v2 = sub_user_id sub_v1
   \<and> length (find_docs (submission_key (sub_assignment_id sub_v1) (sub_user_id sub_v1)) (empty_db ''submission'')) \<le> 1
   \<and> distinct (map doc_id (empty_db ''submission''))
   \<and> (1 :: objectid) \<notin> doc_id ` set (empty_db ''submission'')
   \<and> (\<exists>d. find_docs (submission_key (sub_assignment_id sub_v1) (sub_user_id sub_v1))
          (snd (submit sub_v2 2 (snd (submit sub_v1 1 empty_db))) ''submission'') = [d]
        \<and> map_of (doc_fields d) ''content'' = Some (opt_val (sub_content sub_v2))
        \<and> (\<exists>v1. fst (submit sub_v1 1 empty_db) = Inr (Some v1)
              \<and> map_of v1 ''id'' = Some (VStr (str_oid (doc_id d))))
        \<and> (\<exists>v2. fst (submit sub_v2 2 (snd (submit sub_v1 1 empty_db))) = Inr (Some v2)
              \<and> map_of v2 ''id'' = Some (VStr (str_oid (doc_id d)))))
   \<and> opt_val (sub_content sub_v2) = VStr ''v2''"
proof -
  have k1: "sub_assignment_id sub_v2 = sub_assignment_id sub_v1"
    by (simp add: sub_v1_def sub_v2_def)
  have k2: "sub_user_id sub_v2 = sub_user_id sub_v1"
    by (simp add: sub_v1_def sub_v2_def)
  have h1: "length (find_docs (submission_key (sub_assignment_id sub_v1) (sub_user_id sub_v1)) (empty_db ''submission'')) \<le> 1"
    by (simp add: find_docs_def empty_db_def)
  have h2: "distinct (map doc_id (empty_db ''submission''))"
    by (simp add: empty_db_def)
  have h3: "(1 :: objectid) \<notin> doc_id ` set (empty_db ''submission'')"
    by (simp add: empty_db_def)
  have e1: "submit sub_v1 1 empty_db = (fst (submit sub_v1 1 empty_db), snd (submit sub_v1 1 empty_db))"
    by (rule prod.collapse [symmetric])
  have e2: "submit sub_v2 2 (snd (submit sub_v1 1 empty_db))
     = (fst (submit sub_v2 2 (snd (submit sub_v1 1 empty_db))),
        snd (submit sub_v2 2 (snd (submit sub_v1 1 empty_db))))"
    by (rule prod.collapse [symmetric])
  have v: "opt_val (sub_content sub_v2) = VStr ''v2''"
    by (simp add: sub_v2_def opt_val_def)
  note t = submit_twice [OF k1 k2 h1 h2 h3 e1 e2]
  show ?thesis
    by (intro conjI k1 k2 h1 h2 h3 t v)
qed

lemma submit_existing_store:
  assumes uniq: "distinct (map doc_id (s ''submission''))"
    and found: "find_one (submission_key (sub_assignment_id b) (sub_user_id b)) (s ''submission'') = Some ex"
    and run: "submit b i s = (r, s')"
  shows "s' ''submission'' = map (\<lambda>x. if doc_id x = doc_id ex then resubmitted b x else x) (s ''submission'')"
    and "find_one [(''_id'', EqId (doc_id ex))] (s' ''submission'') = Some (resubmitted b ex)"
    and "r = Inr (Some (serialize_doc (resubmitted b ex)))"
proof -
  let ?f = "\<lambda>x. if doc_id x = doc_id ex then resubmitted b x else x"
  from found have ex: "ex \<in> set (s ''submission'')"
    by (auto dest: find_one_SomeD)
  from submit_existing [where s = s and b = b and ex = ex and i = i, OF uniq found] run
  have r: "r = Inr (Some (serialize_doc (resubmitted b ex)))"
    and s': "s' = s(''submission'' := map ?f (s ''submission''))"
    by simp_all
  from s' show 1: "s' ''submission'' = map ?f (s ''submission'')"
    by simp
  have "find_one [(''_id'', EqId (doc_id ex))] (map ?f (s ''submission'')) = Some (?f ex)"
    by (rule find_one_id_map [OF uniq ex]) simp
  then show "find_one [(''_id'', EqId (doc_id ex))] (s' ''submission'') = Some (resubmitted b ex)"
    by (simp add: 1)
  show "r = Inr (Some (serialize_doc (resubmitted b ex)))"
    by (rule r)
qed

lemma graded_db_found:
  "find_one (submission_key ''a1'' ''u2'') (graded_db ''submission'') = Some graded_doc"
  by (simp add: graded_db_def graded_doc_def find_one_def matches_def submission_key_def)

text \<open>
  C5. A \<open>submit\<close> call whose \<open>(assignment_id, user_id)\<close> finds a stored Submission, on a
  store with unique identifiers: the record keeps its identifier, its \<open>grade\<close> and its
  \<open>feedback\<close>, and every other field but \<open>content\<close> (the two key fields are written with
  the values the query matched, so a key field that holds a string keeps it); the identifiers
  of the collection and all its other documents stay as they were.
\<close>

theorem resubmit_frame:
  assumes uniq: "distinct (map doc_id (s ''submission''))"
    and found: "find_one (submission_key (sub_assignment_id b) (sub_user_id b)) (s ''submission'') = Some ex"
    and run: "submit b i s = (r, s')"
  shows "\<exists>ex'. find_one [(''_id'', EqId (doc_id ex))] (s' ''submission'') = Some ex'
           \<and> doc_id ex' = doc_id ex
           \<and> map_of (doc_fields ex') ''grade'' = map_of (doc_fields ex) ''grade''
           \<and> map_of (doc_fields ex') ''feedback'' = map_of (doc_fields ex) ''feedback''
           \<and> (\<forall>k. k \<notin> {''assignment_id'', ''user_id'', ''content''} \<longrightarrow>
                  map_of (doc_fields ex') k = map_of (doc_fields ex) k)
           \<and> (\<forall>k t. map_of (doc_fields ex) k = Some (VStr t) \<and> k \<noteq> ''content'' \<longrightarrow>
                  map_of (doc_fields ex') k = Some (VStr t))
           \<and> map doc_id (s' ''submission'') = map doc_id (s ''submission'')
           \<and> (\<forall>d\<in>set (s ''submission''). doc_id d \<noteq> doc_id ex \<longrightarrow> d \<in> set (s' ''submission''))"
proof -
  let ?f = "\<lambda>x. if doc_id x = doc_id ex then resubmitted b x else x"
  let ?e = "resubmitted b ex"
  note st = submit_existing_store [OF uniq found run]
  from found have m: "matches (submission_key (sub_assignment_id b) (sub_user_id b)) ex"
    by (auto dest: find_one_SomeD)
  have a: "doc_id ?e = doc_id ex"
    by simp
  have g: "map_of (doc_fields ?e) ''grade'' = map_of (doc_fields ex) ''grade''"
    by (simp add: map_of_resubmitted)
  have f: "map_of (doc_fields ?e) ''feedback'' = map_of (doc_fields ex) ''feedback''"
    by (simp add: map_of_resubmitted)
  have others: "\<forall>k. k \<notin> {''assignment_id'', ''user_id'', ''content''} \<longrightarrow>
      map_of (doc_fields ?e) k = map_of (doc_fields ex) k"
    by (simp add: map_of_resubmitted)
  have keys: "\<forall>k t. map_of (doc_fields ex) k = Some (VStr t) \<and> k \<noteq> ''content'' \<longrightarrow>
      map_of (doc_fields ?e) k = Some (VStr t)"
  proof (intro allI impI)
    fix k t
    assume kt: "map_of (doc_fields ex) k = Some (VStr t) \<and> k \<noteq> ''content''"
    from m have "match1 ex ''assignment_id'' (Eq (sub_assignment_id b))"
      and "match1 ex ''user_id'' (Eq (sub_user_id b))"
      by (simp_all add: matches_def submission_key_def)
    with kt show "map_of (doc_fields ?e) k = Some (VStr t)"
      by (cases "k = ''assignment_id''"; cases "k = ''user_id''") (simp_all add: map_of_resubmitted)
  qed
  have "doc_id \<circ> ?f = doc_id"
    by (rule ext) simp
  then have ids: "map doc_id (s' ''submission'') = map doc_id (s ''submission'')"
    by (simp only: st(1) map_map)
  have rest: "\<forall>d\<in>set (s ''submission''). doc_id d \<noteq> doc_id ex \<longrightarrow> d \<in> set (s' ''submission'')"
  proof (intro ballI impI)
    fix d
    assume d: "d \<in> set (s ''submission'')" "doc_id d \<noteq> doc_id ex"
    then have fd: "?f d = d" by simp
    from d(1) have "?f d \<in> ?f ` set (s ''submission'')" by (rule imageI)
    then have "d \<in> ?f ` set (s ''submission'')" by (simp only: fd)
    then show "d \<in> set (s' ''submission'')" by (simp only: st(1) set_map)
  qed
  show ?thesis
    by (rule exI [of _ ?e]) (intro conjI st(2) a g f others keys ids rest)
qed

theorem resubmit_frame_witness:
  "distinct (map doc_id (graded_db ''submission''))
   \<and> find_one (submission_key (sub_assignment_id sub_v2) (sub_user_id sub_v2)) (graded_db ''submission'')
       = Some graded_doc
   \<and> (\<exists>ex'. find_one [(''_id'', EqId (doc_id graded_doc))] (snd (submit sub_v2 2 graded_db) ''submission'') = Some ex'
        \<and> doc_id ex' = doc_id graded_doc
        \<and> map_of (doc_fields ex') ''grade'' = map_of (doc_fields graded_doc) ''grade''
        \<and> map_of (doc_fields ex') ''feedback'' = map_of (doc_fields graded_doc) ''feedback''
        \<and> (\<forall>k. k \<notin> {''assignment_id'', ''user_id'', ''content''} \<longrightarrow>
               map_of (doc_fields ex') k = map_of (doc_fields graded_doc) k)
        \<and> (\<forall>k t. map_of (doc_fields graded_doc) k = Some (VStr t) \<and> k \<noteq> ''content'' \<longrightarrow>
               map_of (doc_fields ex') k = Some (VStr t))
        \<and> map doc_id (snd (submit sub_v2 2 graded_db) ''submission'') = map doc_id (graded_db ''submission'')
        \<and> (\<forall>d\<in>set (graded_db ''submission''). doc_id d \<noteq> doc_id graded_doc \<longrightarrow>
               d \<in> set (snd (submit sub_v2 2 graded_db) ''submission'')))
   \<and> map_of (doc_fields graded_doc) ''grade'' = Some (VFloat 9)
   \<and> map_of (doc_fields graded_doc) ''feedback'' = Some (VStr ''good'')"
proof -
  have h1: "distinct (map doc_id (graded_db ''submission''))"
    by (simp add: graded_db_def)
  have h2: "find_one (submission_key (sub_assignment_id sub_v2) (sub_user_id sub_v2)) (graded_db ''submission'')
       = Some graded_doc"
    using graded_db_found by (simp add: sub_v2_def)
  have e: "submit sub_v2 2 graded_db = (fst (submit sub_v2 2 graded_db), snd (submit sub_v2 2 graded_db))"
    by (rule prod.collapse [symmetric])
  have g: "map_of (doc_fields graded_doc) ''grade'' = Some (VFloat 9)"
    by (simp add: graded_doc_def)
  have f: "map_of (doc_fields graded_doc) ''feedback'' = Some (VStr ''good'')"
    by (simp add: graded_doc_def)
  note t = resubmit_frame [OF h1 h2 e]
  show ?thesis
    by (intro conjI h1 h2 t g f)
qed

text \<open>
  C10. A submission request that validates and whose \<open>(assignment_id, user_id)\<close> finds a stored
  Submission, on a store with unique identifiers: afterwards the record's \<open>content\<close> is the
  call's \<open>content\<close>, and it is \<open>None\<close> when the request leaves \<open>content\<close> out, whatever
  the record held before.
\<close>

theorem resubmit_content:
  assumes uniq: "distinct (map doc_id (s ''submission''))"
    and valid: "SubmissionIn_validate raw = Inr b"
    and found: "find_one (submission_key (sub_assignment_id b) (sub_user_id b)) (s ''submission'') = Some ex"
    and run: "post PostSubmissions raw i s = (r, s')"
  shows "\<exists>ex'. find_one [(''_id'', EqId (doc_id ex))] (s' ''submission'') = Some ex'
           \<and> map_of (doc_fields ex') ''content'' = Some (opt_val (sub_content b))
           \<and> (map_of raw ''content'' = None \<longrightarrow> map_of (doc_fields ex') ''content'' = Some VNone)"
proof -
  from valid run have run': "submit b i s = (r, s')"
    by (simp add: post_def)
  note st = submit_existing_store [OF uniq found run']
  have c: "map_of (doc_fields (resubmitted b ex)) ''content'' = Some (opt_val (sub_content b))"
    by (simp add: map_of_resubmitted)
  have "sub_content b = None" if "map_of raw ''content'' = None"
  proof -
    from that have "opt_str raw ''content'' None = Inr None"
      by (simp add: opt_str_def)
    with valid show ?thesis
      by (auto simp: SubmissionIn_validate_def Let_def split: if_splits)
  qed
  then have n: "map_of raw ''content'' = None \<longrightarrow> map_of (doc_fields (resubmitted b ex)) ''content'' = Some VNone"
    by (simp add: c opt_val_def)
  show ?thesis
    by (rule exI [of _ "resubmitted b ex"]) (intro conjI st(2) c n)
qed

theorem resubmit_content_witness:
  "distinct (map doc_id (graded_db ''submission''))
   \<and> SubmissionIn_validate body_without_content = Inr sub_none
   \<and> find_one (submission_key (sub_assignment_id sub_none) (sub_user_id sub_none)) (graded_db ''submission'')
       = Some graded_doc
   \<and> (\<exists>ex'. find_one [(''_id'', EqId (doc_id graded_doc))]
               (snd (post PostSubmissions body_without_content 2 graded_db) ''submission'') = Some ex'
        \<and> map_of (doc_fields ex') ''content'' = Some (opt_val (sub_content sub_none))
        \<and> (map_of body_without_content ''content'' = None \<longrightarrow>
               map_of (doc_fields ex') ''content'' = Some VNone))
   \<and> map_of body_without_content ''content'' = None
   \<and> map_of (doc_fields graded_doc) ''content'' = Some (VStr ''v1'')"
proof -
  have h1: "distinct (map doc_id (graded_db ''submission''))"
    by (simp add: graded_db_def)
  have h2: "SubmissionIn_validate body_without_content = Inr sub_none"
    by (simp add: SubmissionIn_validate_def body_without_content_def sub_none_def req_str_def
        opt_str_def errs_of_def)
  have h3: "find_one (submission_key (sub_assignment_id sub_none) (sub_user_id sub_none)) (graded_db ''submission'')
       = Some graded_doc"
    using graded_db_found by (simp add: sub_none_def)
  have e: "post PostSubmissions body_without_content 2 graded_db
     = (fst (post PostSubmissions body_without_content 2 graded_db),
        snd (post PostSubmissions body_without_content 2 graded_db))"
    by (rule prod.collapse [symmetric])
  have n: "map_of body_without_content ''content'' = None"
    by (simp add: body_without_content_def)
  have c: "map_of (doc_fields graded_doc) ''content'' = Some (VStr ''v1'')"
    by (simp add: graded_doc_def)
  note t = resubmit_content [OF h1 h2 h3 e]
  show ?thesis
    by (intro conjI h1 h2 h3 t n c)
qed






section \<open>Reading a course\<close>






section \<open>Validation of request bodies\<close>

lemma req_str_missing: "map_of raw k = None \<Longrightarrow> errs_of (req_str raw k) = [Missing k]"
  by (simp add: req_str_def errs_of_def)

lemma CourseIn_missing:
  "f \<in> set (required_fields PostCourses) \<Longrightarrow> map_of raw f = None \<Longrightarrow>
   \<exists>es. CourseIn_validate raw = Inl es \<and> Missing f \<in> set es"
  unfolding CourseIn_validate_def Let_def by (auto simp: req_str_missing)

lemma LessonIn_missing:
  "f \<in> set (required_fields PostLessons) \<Longrightarrow> map_of raw f = None \<Longrightarrow>
   \<exists>es. LessonIn_validate raw = Inl es \<and> Missing f \<in> set es"
  unfolding LessonIn_validate_def Let_def by (auto simp: req_str_missing)

lemma EnrollmentIn_missing:
  "f \<in> set (required_fields PostEnrollments) \<Longrightarrow> map_of raw f = None \<Longrightarrow>
   \<exists>es. EnrollmentIn_validate raw = Inl es \<and> Missing f \<in> set es"
  unfolding EnrollmentIn_validate_def Let_def by (auto simp: req_str_missing)

lemma AssignmentIn_missing:
  "f \<in> set (required_fields PostAssignments) \<Longrightarrow> map_of raw f = None \<Longrightarrow>
   \<exists>es. AssignmentIn_validate raw = Inl es \<and> Missing f \<in> set es"
  unfolding AssignmentIn_validate_def Let_def by (auto simp: req_str_missing)

lemma SubmissionIn_missing:
  "f \<in> set (required_fields PostSubmissions) \<Longrightarrow> map_of raw f = None \<Longrightarrow>
   \<exists>es. SubmissionIn_validate raw = Inl es \<and> Missing f \<in> set es"
  unfolding SubmissionIn_validate_def Let_def by (auto simp: req_str_missing)

text \<open>
  C6. For every creating route and every field its request model requires: a body without the
  field is rejected with a validation error that names the field as missing, and the store is
  returned as it was.
\<close>

theorem missing_required_field:
  assumes "f \<in> set (required_fields r)" and "map_of raw f = None"
  shows "\<exists>es. post r raw new_id s = (Inl (ValidationError es), s) \<and> Missing f \<in> set es"
proof (cases r)
  case PostCourses
  with assms CourseIn_missing [of f raw] show ?thesis
    by (auto simp: post_def)
next
  case PostLessons
  with assms LessonIn_missing [of f raw] show ?thesis
    by (auto simp: post_def)
next
  case PostEnrollments
  with assms EnrollmentIn_missing [of f raw] show ?thesis
    by (auto simp: post_def)
next
  case PostAssignments
  with assms AssignmentIn_missing [of f raw] show ?thesis
    by (auto simp: post_def)
next
  case PostSubmissions
  with assms SubmissionIn_missing [of f raw] show ?thesis
    by (auto simp: post_def)
qed

theorem missing_required_field_witness:
  "''title'' \<in> set (required_fields PostCourses)
   \<and> map_of body_without_title ''title'' = None
   \<and> (\<exists>es. post PostCourses body_without_title 3 graded_db = (Inl (ValidationError es), graded_db)
          \<and> Missing ''title'' \<in> set es)
   \<and> post PostCourses body_without_title 3 graded_db = (Inl (ValidationError [Missing ''title'']), graded_db)"
proof -
  have h1: "''title'' \<in> set (required_fields PostCourses)"
    by simp
  have h2: "map_of body_without_title ''title'' = None"
    by (simp add: body_without_title_def)
  have ev: "post PostCourses body_without_title 3 graded_db
      = (Inl (ValidationError [Missing ''title'']), graded_db)"
    by (simp add: post_def CourseIn_validate_def body_without_title_def req_str_def opt_str_def
        opt_str_list_def errs_of_def)
  note t = missing_required_field [OF h1 h2]
  show ?thesis
    by (intro conjI h1 h2 t ev)
qed

section \<open>Creating a record\<close>









lemma map_of_serialize_doc:
  "map_of (serialize_doc d) k =
     (if k = ''id'' then Some (VStr (str_oid (doc_id d)))
      else map_option iso_value (map_of (doc_fields d) k))"
proof -
  have "iso_value (VStr t) = VStr t" for t
    by (simp add: iso_value_def)
  then show ?thesis
    unfolding serialize_doc_def map_of_map_val by (simp add: update_conv')
qed




lemma str_oid_1: "str_oid 1 = ''000000000000000000000001''"
  by (simp add: str_oid_def hex_digits_numeral hexdigit_def)































section \<open>Listing courses\<close>

lemma regex_compile_plain: "plain_pattern q \<Longrightarrow> regex_compile q = Some (map PChar q)"
  by (induction q) (simp_all add: plain_pattern_def)

lemma match_here_plain: "match_here (map PChar q) t \<longleftrightarrow> prefix (map lower q) (map lower t)"
  by (induction "map PChar q" t arbitrary: q rule: match_here.induct) auto

lemma regex_search_plain: "regex_search (map PChar q) t \<longleftrightarrow> contains_ci q t"
  by (induction t) (simp_all add: contains_ci_def match_here_plain sublist_Cons_right)

lemma length_limit_docs: "n \<noteq> 0 \<Longrightarrow> length (limit_docs n docs) \<le> nat \<bar>n\<bar>"
  by (simp add: limit_docs_def)

lemma set_limit_docs: "set (limit_docs n docs) \<subseteq> set docs"
  by (auto simp: limit_docs_def dest: in_set_takeD)

lemma title_of_match:
  assumes "matches ((''title'', Regex (map PChar q)) # filt) d" and "ascii_title d"
  shows "\<exists>t. map_of (doc_fields d) ''title'' = Some (VStr t) \<and> contains_ci q t"
proof (cases "map_of (doc_fields d) ''title''")
  case None
  with assms(1) show ?thesis by (simp add: matches_def)
next
  case (Some v)
  with assms show ?thesis
    by (cases v) (simp_all add: matches_def ascii_title_def is_ascii_def regex_search_plain)
qed

text \<open>
  C8. A listing of courses with a title filter \<open>q\<close> that is a non-empty ASCII string
  without regular-expression metacharacters, and with a positive limit that fits in eight bytes
  (50 when the request gives none), on courses whose titles are ASCII strings: every view returned has a title that
  contains \<open>q\<close> under case-insensitive comparison, and there are no more views than the
  limit.
\<close>

theorem list_courses_filtered:
  assumes plain: "plain_pattern q" and ascii: "is_ascii q" and nonempty: "q \<noteq> []"
    and typed: "list_all ascii_title (s ''course'')"
    and pos: "0 < (case limit of None \<Rightarrow> 50 | Some n \<Rightarrow> n)"
    and small: "(case limit of None \<Rightarrow> 50 | Some n \<Rightarrow> n) < 2 ^ 63"
  shows "\<exists>vs. list_courses (Some q) tag limit s = Inr vs
           \<and> int (length vs) \<le> (case limit of None \<Rightarrow> 50 | Some n \<Rightarrow> n)
           \<and> list_all (\<lambda>v. \<exists>w t. v = Some w \<and> map_of w ''title'' = Some (VStr t) \<and> contains_ci q t) vs"
proof -
  let ?n = "case limit of None \<Rightarrow> 50 | Some n \<Rightarrow> n"
  let ?tagf = "if truthy tag then [(''tags'', Eq (the tag))] else []"
  let ?docs = "limit_docs ?n (find_docs ((''title'', Regex (map PChar q)) # ?tagf) (s ''course''))"
  from nonempty have tq: "truthy (Some q)"
    by (simp add: truthy_def)
  have res: "list_courses (Some q) tag limit s = Inr (map (\<lambda>d. serialize (Some d)) ?docs)"
    using tq regex_compile_plain [OF plain] pos small by (simp add: list_courses_def Let_def)
  from pos have "length ?docs \<le> nat \<bar>?n\<bar>"
    by (intro length_limit_docs) simp
  with pos have len: "int (length (map (\<lambda>d. serialize (Some d)) ?docs)) \<le> ?n"
    by simp
  have "\<exists>w t. serialize (Some d) = Some w \<and> map_of w ''title'' = Some (VStr t) \<and> contains_ci q t"
    if "d \<in> set ?docs" for d
  proof -
    from that set_limit_docs have "d \<in> set (find_docs ((''title'', Regex (map PChar q)) # ?tagf) (s ''course''))"
      by blast
    then have d: "d \<in> set (s ''course'')" and m: "matches ((''title'', Regex (map PChar q)) # ?tagf) d"
      by (simp_all add: find_docs_def)
    from d typed have "ascii_title d"
      by (simp add: list_all_iff)
    from title_of_match [OF m this] obtain t
      where t: "map_of (doc_fields d) ''title'' = Some (VStr t)" "contains_ci q t"
      by blast
    then have "map_of (serialize_doc d) ''title'' = Some (VStr t)"
      by (simp add: map_of_serialize_doc iso_value_def)
    with t(2) show ?thesis
      by (simp add: serialize_def)
  qed
  then have titles: "list_all (\<lambda>v. \<exists>w t. v = Some w \<and> map_of w ''title'' = Some (VStr t) \<and> contains_ci q t)
      (map (\<lambda>d. serialize (Some d)) ?docs)"
    by (simp add: list_all_iff)
  show ?thesis
    by (rule exI [of _ "map (\<lambda>d. serialize (Some d)) ?docs"]) (intro conjI res len titles)
qed


lemma str_oid_2: "str_oid 2 = ''000000000000000000000002''"
  by (simp add: str_oid_def hex_digits_numeral hexdigit_def)

text \<open>
  The filter string is a regular expression: \<open>.\<close> finds the title \<open>abc\<close>, which does not
  contain it. A limit of 0 is no limit: both courses come back.
\<close>

theorem list_courses_counterexample:
  "list_courses (Some ''.'') None (Some 1) two_courses
     = Inr [Some [(''title'', VStr ''abc''), (''id'', VStr ''000000000000000000000001'')]]
   \<and> \<not> contains_ci ''.'' ''abc''
   \<and> list_courses (Some ''b'') None (Some 0) two_courses
     = Inr [Some [(''title'', VStr ''abc''), (''id'', VStr ''000000000000000000000001'')],
            Some [(''title'', VStr ''xbz''), (''id'', VStr ''000000000000000000000002'')]]"
proof -
  have a: "list_courses (Some ''.'') None (Some 1) two_courses
     = Inr [Some [(''title'', VStr ''abc''), (''id'', VStr ''000000000000000000000001'')]]"
    by (simp add: list_courses_def truthy_def metachars_def two_courses_def find_docs_def
        matches_def limit_docs_def serialize_def serialize_doc_def iso_value_def str_oid_1)
  have b: "\<not> contains_ci ''.'' ''abc''"
    by (simp add: contains_ci_def sublist_Cons_right lower_def)
  have c: "list_courses (Some ''b'') None (Some 0) two_courses
     = Inr [Some [(''title'', VStr ''abc''), (''id'', VStr ''000000000000000000000001'')],
            Some [(''title'', VStr ''xbz''), (''id'', VStr ''000000000000000000000002'')]]"
    by (simp add: list_courses_def truthy_def metachars_def two_courses_def find_docs_def
        matches_def limit_docs_def serialize_def serialize_doc_def iso_value_def str_oid_1
        str_oid_2 lower_def)
  show ?thesis
    by (intro conjI a b c)
qed

theorem list_courses_filtered_witness:
  "plain_pattern ''B'' \<and> is_ascii ''B'' \<and> ''B'' \<noteq> [] \<and> list_all ascii_title (two_courses ''course'')
   \<and> (0 :: int) < (case Some 1 of None \<Rightarrow> 50 | Some n \<Rightarrow> n)
   \<and> (case Some 1 of None \<Rightarrow> 50 | Some n \<Rightarrow> n) < (2 :: int) ^ 63
   \<and> (\<exists>vs. list_courses (Some ''B'') None (Some 1) two_courses = Inr vs
        \<and> int (length vs) \<le> (case Some 1 of None \<Rightarrow> 50 | Some n \<Rightarrow> n)
        \<and> list_all (\<lambda>v. \<exists>w t. v = Some w \<and> map_of w ''title'' = Some (VStr t) \<and> contains_ci ''B'' t) vs)
   \<and> list_courses (Some ''B'') None (Some 1) two_courses
     = Inr [Some [(''title'', VStr ''abc''), (''id'', VStr ''000000000000000000000001'')]]"
proof -
  have h1: "plain_pattern ''B''"
    by (simp add: plain_pattern_def metachars_def)
  have ha: "is_ascii ''B''"
    by (simp add: is_ascii_def)
  have h2: "''B'' \<noteq> []"
    by simp
  have h3: "list_all ascii_title (two_courses ''course'')"
    by (simp add: two_courses_def ascii_title_def is_ascii_def)
  have h4: "(0 :: int) < (case Some 1 of None \<Rightarrow> 50 | Some n \<Rightarrow> n)"
    by simp
  have h5: "(case Some 1 of None \<Rightarrow> 50 | Some n \<Rightarrow> n) < (2 :: int) ^ 63"
    by simp
  have ev: "list_courses (Some ''B'') None (Some 1) two_courses
     = Inr [Some [(''title'', VStr ''abc''), (''id'', VStr ''000000000000000000000001'')]]"
    by (simp add: list_courses_def truthy_def metachars_def two_courses_def find_docs_def
        matches_def limit_docs_def serialize_def serialize_doc_def iso_value_def str_oid_1
        lower_def)
  note t = list_courses_filtered [where q = "''B''" and s = two_courses and limit = "Some 1"
      and tag = None, OF h1 ha h2 h3 h4 h5]
  show ?thesis
    by (intro conjI h1 ha h2 h3 h4 h5 t ev)
qed

section \<open>Listing lessons\<close>










section \<open>Concurrent calls\<close>

lemma enroll_steps:
  "interleave enroll_step [True, True] i1 i2 (Start e, t2, s)
     = (Done (fst (enroll e i1 s)), t2, snd (enroll e i1 s))"
  by (simp add: enroll_step_def enroll_def split: option.splits prod.splits)

lemma submit_steps:
  "interleave submit_step [True, True] i1 i2 (Start b, t2, s)
     = (Done (fst (submit b i1 s)), t2, snd (submit b i1 s))"
  by (simp add: submit_step_def submit_def Let_def split: option.splits prod.splits)

lemma enroll_steps_second:
  "interleave enroll_step [False, False] i1 i2 (t1, Start e, s)
     = (t1, Done (fst (enroll e i2 s)), snd (enroll e i2 s))"
  by (simp add: enroll_step_def enroll_def split: option.splits prod.splits)

lemma submit_steps_second:
  "interleave submit_step [False, False] i1 i2 (t1, Start b, s)
     = (t1, Done (fst (submit b i2 s)), snd (submit b i2 s))"
  by (simp add: submit_step_def submit_def Let_def split: option.splits prod.splits)

lemma enroll_race:
  "interleave enroll_step [True, False, True, False] 1 2 (Start enr_student, Start enr_student, empty_db)
     = (Done (Inr (Some (serialize_doc enrollment_1))), Done (Inr (Some (serialize_doc enrollment_2))),
        empty_db(''enrollment'' := [enrollment_1, enrollment_2]))"
proof -
  have f1: "(1 :: objectid) \<notin> doc_id ` set (empty_db ''enrollment'')"
    by (simp add: empty_db_def)
  note c1 = create_and_fetch_fresh [where s = empty_db and coll = "''enrollment''"
      and data = "EnrollmentIn_dump enr_student" and new_id = 1, OF encodable_EnrollmentIn_dump f1]
  let ?s1 = "empty_db(''enrollment'' := empty_db ''enrollment'' @ [enrollment_1])"
  have f2: "(2 :: objectid) \<notin> doc_id ` set (?s1 ''enrollment'')"
    by (simp add: empty_db_def enrollment_1_def)
  note c2 = create_and_fetch_fresh [where s = ?s1 and coll = "''enrollment''"
      and data = "EnrollmentIn_dump enr_student" and new_id = 2, OF encodable_EnrollmentIn_dump f2]
  have n: "find_one [(''course_id'', Eq (enr_course_id enr_student)), (''user_id'', Eq (enr_user_id enr_student))]
      (empty_db ''enrollment'') = None"
    by (simp add: find_one_def empty_db_def)
  show ?thesis
    using c1 c2
    by (simp add: enroll_step_def n enrollment_1_def enrollment_2_def) (simp add: empty_db_def)
qed

lemma submit_race:
  "interleave submit_step [True, False, True, False] 1 2 (Start sub_v1, Start sub_v2, empty_db)
     = (Done (Inr (Some (serialize_doc submission_1))), Done (Inr (Some (serialize_doc submission_2))),
        empty_db(''submission'' := [submission_1, submission_2]))"
proof -
  have f1: "(1 :: objectid) \<notin> doc_id ` set (empty_db ''submission'')"
    by (simp add: empty_db_def)
  note c1 = create_and_fetch_fresh [where s = empty_db and coll = "''submission''"
      and data = "SubmissionIn_dump sub_v1" and new_id = 1, OF encodable_SubmissionIn_dump f1]
  let ?s1 = "empty_db(''submission'' := empty_db ''submission'' @ [submission_1])"
  have f2: "(2 :: objectid) \<notin> doc_id ` set (?s1 ''submission'')"
    by (simp add: empty_db_def submission_1_def)
  note c2 = create_and_fetch_fresh [where s = ?s1 and coll = "''submission''"
      and data = "SubmissionIn_dump sub_v2" and new_id = 2, OF encodable_SubmissionIn_dump f2]
  have n1: "find_one [(''assignment_id'', Eq (sub_assignment_id sub_v1)), (''user_id'', Eq (sub_user_id sub_v1))]
      (empty_db ''submission'') = None"
    by (simp add: find_one_def empty_db_def)
  have n2: "find_one [(''assignment_id'', Eq (sub_assignment_id sub_v2)), (''user_id'', Eq (sub_user_id sub_v2))]
      (empty_db ''submission'') = None"
    by (simp add: find_one_def empty_db_def)
  show ?thesis
    using c1 c2
    by (simp add: submit_step_def n1 n2 submission_1_def submission_2_def) (simp add: empty_db_def)
qed

text \<open>
  C3. Two calls with the same dedup key on a store without a record of the key, each doing its
  lookup before either inserts: both lookups find nothing, both calls create, the store ends
  with two records of the key, and each call returns the record it created.
\<close>

theorem concurrent_calls_duplicate:
  "interleave enroll_step [True, False, True, False] 1 2 (Start enr_student, Start enr_student, empty_db)
     = (Done (Inr (Some (serialize_doc enrollment_1))), Done (Inr (Some (serialize_doc enrollment_2))),
        empty_db(''enrollment'' := [enrollment_1, enrollment_2]))
   \<and> find_docs (enrollment_key ''c1'' ''u2'') [enrollment_1, enrollment_2] = [enrollment_1, enrollment_2]
   \<and> map_of (serialize_doc enrollment_1) ''id'' = Some (VStr ''000000000000000000000001'')
   \<and> map_of (serialize_doc enrollment_2) ''id'' = Some (VStr ''000000000000000000000002'')
   \<and> interleave submit_step [True, False, True, False] 1 2 (Start sub_v1, Start sub_v2, empty_db)
     = (Done (Inr (Some (serialize_doc submission_1))), Done (Inr (Some (serialize_doc submission_2))),
        empty_db(''submission'' := [submission_1, submission_2]))
   \<and> find_docs (submission_key ''a1'' ''u2'') [submission_1, submission_2] = [submission_1, submission_2]
   \<and> map_of (serialize_doc submission_1) ''id'' = Some (VStr ''000000000000000000000001'')
   \<and> map_of (serialize_doc submission_2) ''id'' = Some (VStr ''000000000000000000000002'')"
proof -
  have e: "find_docs (enrollment_key ''c1'' ''u2'') [enrollment_1, enrollment_2] = [enrollment_1, enrollment_2]"
    by (simp add: find_docs_def matches_def enrollment_key_def enrollment_1_def enrollment_2_def
        EnrollmentIn_dump_def enr_student_def)
  have s: "find_docs (submission_key ''a1'' ''u2'') [submission_1, submission_2] = [submission_1, submission_2]"
    by (simp add: find_docs_def matches_def submission_key_def submission_1_def submission_2_def
        SubmissionIn_dump_def sub_v1_def sub_v2_def)
  have i: "map_of (serialize_doc enrollment_1) ''id'' = Some (VStr ''000000000000000000000001'')"
    "map_of (serialize_doc enrollment_2) ''id'' = Some (VStr ''000000000000000000000002'')"
    "map_of (serialize_doc submission_1) ''id'' = Some (VStr ''000000000000000000000001'')"
    "map_of (serialize_doc submission_2) ''id'' = Some (VStr ''000000000000000000000002'')"
    by (simp_all add: serialize_doc_id enrollment_1_def enrollment_2_def submission_1_def
        submission_2_def str_oid_1 str_oid_2)
  show ?thesis
    by (intro conjI enroll_race e i submit_race s)
qed

end
